theory Spec2Isabelle
  imports Complex_Main
begin

section \<open>LilaServer (server.ts): the backend launcher\<close>

text \<open>
  The class keeps three fields: \<open>process\<close> (a child process or null), \<open>state\<close> (a string)
  and \<open>terminal\<close> (a VS Code terminal or null). Terminals and processes are objects of the
  host, so the model keeps them in a store indexed by a handle number and the fields hold
  handle numbers. \<open>assigned\<close> lists every value \<open>setState\<close> has stored, oldest first: the class
  keeps only the last one, the list is there to state the order of the transitions.
\<close>

record Terminal =
  shown :: nat
  disposed :: bool

record LilaServer =
  process :: "nat option"
  state :: string
  terminal :: "nat option"
  serverPath :: string
  terminals :: "nat \<Rightarrow> Terminal"
  created :: nat
  killed :: "nat list"
  errorMessages :: nat
  assigned :: "string list"

text \<open>
  What the host does when \<open>start\<close> asks for a terminal: \<open>vscode.window.createTerminal\<close>
  throws, or it returns a terminal whose \<open>show()\<close> throws, or both calls return.
\<close>

datatype host = CreateThrows | ShowThrows | Launched

definition LilaServer_new :: "string \<Rightarrow> LilaServer" where
  "LilaServer_new path =
     \<lparr>process = None, state = ''stopped'', terminal = None, serverPath = path,
      terminals = (\<lambda>_. \<lparr>shown = 0, disposed = False\<rparr>), created = 0, killed = [],
      errorMessages = 0, assigned = []\<rparr>"

definition server_setState :: "string \<Rightarrow> LilaServer \<Rightarrow> LilaServer" where
  "server_setState v s = s\<lparr>state := v, assigned := assigned s @ [v]\<rparr>"

definition createTerminal :: "LilaServer \<Rightarrow> LilaServer" where
  "createTerminal s =
     s\<lparr>terminals := (terminals s)(created s := \<lparr>shown = 0, disposed = False\<rparr>),
       terminal := Some (created s), created := Suc (created s)\<rparr>"

definition terminal_show :: "LilaServer \<Rightarrow> LilaServer" where
  "terminal_show s =
     (case terminal s of
        None \<Rightarrow> s
      | Some t \<Rightarrow> s\<lparr>terminals := (terminals s)(t := (terminals s t)\<lparr>shown := Suc (shown (terminals s t))\<rparr>)\<rparr>)"

definition showErrorMessage :: "LilaServer \<Rightarrow> LilaServer" where
  "showErrorMessage s = s\<lparr>errorMessages := Suc (errorMessages s)\<rparr>"

text \<open>
  The body of the promise in \<open>start\<close>: the \<open>try\<close> block up to the call that throws, then the
  \<open>catch\<close> block. Each path ends in \<open>resolve\<close>, whose argument is the boolean returned here.
\<close>

definition start_executor :: "host \<Rightarrow> LilaServer \<Rightarrow> bool \<times> LilaServer" where
  "start_executor h s =
     (let s1 = server_setState ''starting'' s in
      case h of
        CreateThrows \<Rightarrow> (False, server_setState ''error'' (showErrorMessage s1))
      | ShowThrows \<Rightarrow> (False, server_setState ''error'' (showErrorMessage (createTerminal s1)))
      | Launched \<Rightarrow> (True, server_setState ''running'' (terminal_show (createTerminal s1))))"

definition start :: "host \<Rightarrow> LilaServer \<Rightarrow> bool \<times> LilaServer" where
  "start h s = (if process s \<noteq> None then (True, s) else start_executor h s)"

definition terminal_dispose :: "LilaServer \<Rightarrow> LilaServer" where
  "terminal_dispose s =
     (case terminal s of
        None \<Rightarrow> s
      | Some t \<Rightarrow> s\<lparr>terminals := (terminals s)(t := (terminals s t)\<lparr>disposed := True\<rparr>),
                    terminal := None\<rparr>)"

definition process_kill :: "LilaServer \<Rightarrow> LilaServer" where
  "process_kill s =
     (case process s of
        None \<Rightarrow> s
      | Some p \<Rightarrow> s\<lparr>killed := killed s @ [p], process := None\<rparr>)"

definition stop :: "LilaServer \<Rightarrow> LilaServer" where
  "stop s = server_setState ''stopped'' (process_kill (terminal_dispose s))"

definition server_getState :: "LilaServer \<Rightarrow> string" where
  "server_getState s = state s"

definition isRunning :: "LilaServer \<Rightarrow> bool" where
  "isRunning s = (state s = ''running'')"

definition showTerminal :: "LilaServer \<Rightarrow> LilaServer" where
  "showTerminal s = terminal_show s"

text \<open>The states a server object can be in: the constructor, then any calls of its methods.\<close>

inductive server_reachable :: "LilaServer \<Rightarrow> bool" where
  sr_new: "server_reachable (LilaServer_new path)"
| sr_start: "server_reachable s \<Longrightarrow> server_reachable (snd (start h s))"
| sr_stop: "server_reachable s \<Longrightarrow> server_reachable (stop s)"
| sr_show: "server_reachable s \<Longrightarrow> server_reachable (showTerminal s)"

section \<open>LilaClient (client.ts): the connection\<close>

text \<open>
  A \<open>net.Socket\<close> as the class uses it: the \<open>destroyed\<close> flag it reads, whether the handle is
  still being established (\<open>connecting\<close>), and the arguments of every \<open>write\<close> call in the
  order of the calls, which is the order the stream puts them on the wire.
\<close>

record Socket =
  destroyed :: bool
  connecting :: bool
  written :: "string list"

text \<open>
  The fields of the class are \<open>socket\<close>, \<open>state\<close>, \<open>sessionId\<close> and \<open>messageQueue\<close>.
  \<open>onStateChange\<close> says whether the option of that name was given and \<open>port\<close> is
  \<open>options.port\<close>, a number read from the user's settings. A socket outlives the
  field that pointed to it (its event handlers stay registered), so all sockets ever opened
  live in the store \<open>sockets\<close>, numbered from 0 in the order of their creation, \<open>opened\<close> is
  their number and \<open>socket\<close> holds a number. Each \<open>connect()\<close> call that opens socket \<open>h\<close>
  creates one promise, \<open>promises h\<close>: \<open>None\<close> while it is pending, then the resolved value.
  \<open>notified\<close> lists the arguments of the calls of \<open>options.onStateChange\<close>, oldest first.
\<close>

record LilaClient =
  socket :: "nat option"
  state :: string
  sessionId :: string
  messageQueue :: "string list"
  onStateChange :: bool
  port :: int
  sockets :: "nat \<Rightarrow> Socket"
  opened :: nat
  promises :: "nat \<Rightarrow> bool option"
  notified :: "string list"

text \<open>\<open>Date.now().toString()\<close>: the decimal digits of the clock's value.\<close>

fun toString :: "nat \<Rightarrow> string" where
  "toString n =
     (if n < 10 then [char_of (48 + n)] else toString (n div 10) @ [char_of (48 + n mod 10)])"

declare toString.simps [simp del]

definition LilaClient_new :: "bool \<Rightarrow> int \<Rightarrow> nat \<Rightarrow> LilaClient" where
  "LilaClient_new observer p now =
     \<lparr>socket = None, state = ''disconnected'', sessionId = toString now, messageQueue = [],
      onStateChange = observer, port = p,
      sockets = (\<lambda>_. \<lparr>destroyed = False, connecting = False, written = []\<rparr>), opened = 0,
      promises = (\<lambda>_. None), notified = []\<rparr>"

definition setState :: "string \<Rightarrow> LilaClient \<Rightarrow> LilaClient" where
  "setState v s =
     s\<lparr>state := v, notified := (if onStateChange s then notified s @ [v] else notified s)\<rparr>"

text \<open>The test \<open>this.socket && !this.socket.destroyed\<close> of \<open>connect\<close>, \<open>send\<close> and \<open>setupSession\<close>.\<close>

definition live :: "LilaClient \<Rightarrow> bool" where
  "live s = (case socket s of None \<Rightarrow> False | Some i \<Rightarrow> \<not> destroyed (sockets s i))"

definition socket_write :: "string \<Rightarrow> LilaClient \<Rightarrow> LilaClient" where
  "socket_write d s =
     (case socket s of
        None \<Rightarrow> s
      | Some i \<Rightarrow> s\<lparr>sockets := (sockets s)(i := (sockets s i)\<lparr>written := written (sockets s i) @ [d]\<rparr>)\<rparr>)"

definition socket_destroy :: "LilaClient \<Rightarrow> LilaClient" where
  "socket_destroy s =
     (case socket s of
        None \<Rightarrow> s
      | Some i \<Rightarrow> s\<lparr>sockets := (sockets s)(i := (sockets s i)\<lparr>destroyed := True\<rparr>)\<rparr>)"

text \<open>\<open>resolve\<close> of the promise of socket \<open>h\<close>: only the first call settles the promise.\<close>

definition resolve :: "nat \<Rightarrow> bool \<Rightarrow> LilaClient \<Rightarrow> LilaClient" where
  "resolve h b s =
     (case promises s h of
        None \<Rightarrow> s\<lparr>promises := (promises s)(h \<mapsto> b)\<rparr>
      | Some _ \<Rightarrow> s)"

text \<open>
  The port check of \<open>net.createConnection\<close>: it throws a \<open>RangeError\<close>, before it makes a
  socket, unless the port is a whole number from 0 to 65535.
\<close>

definition validPort :: "int \<Rightarrow> bool" where
  "validPort p = (0 \<le> p \<and> p \<le> 65535)"

text \<open>
  What a \<open>connect()\<close> call returns: a promise already resolved (the early \<open>return true\<close>), the
  pending promise of the socket it opened, or a rejected promise. With a port it accepts
  \<open>net.createConnection\<close> returns the socket at once, not destroyed and still connecting, and
  the call registers the listeners and the timer, which are the handlers further down. With
  a port it refuses it throws inside the body of the promise, after \<open>setState("connecting")\<close>
  and before the assignment to \<open>this.socket\<close>: the promise is rejected, the field keeps its
  value, and no listener and no timer is registered.
\<close>

datatype connect_result = Resolved bool | Pending nat | Rejected

definition connect :: "LilaClient \<Rightarrow> connect_result \<times> LilaClient" where
  "connect s =
     (if live s then (Resolved True, s)
      else
        let s1 = setState ''connecting'' s; h = opened s1 in
        if \<not> validPort (port s1) then (Rejected, s1)
        else
          (Pending h,
           s1\<lparr>socket := Some h,
              sockets := (sockets s1)(h := \<lparr>destroyed = False, connecting = True, written = []\<rparr>),
              promises := (promises s1)(h := None),
              opened := Suc h\<rparr>))"

definition disconnect :: "LilaClient \<Rightarrow> LilaClient" where
  "disconnect s =
     setState ''disconnected''
       (if socket s \<noteq> None then (socket_destroy s)\<lparr>socket := None\<rparr> else s)"

definition send :: "string \<Rightarrow> LilaClient \<Rightarrow> LilaClient" where
  "send code s =
     (if \<not> live s then s\<lparr>messageQueue := messageQueue s @ [code]\<rparr>
      else socket_write (code @ ''\<newline>'') s)"

definition isConnected :: "LilaClient \<Rightarrow> bool" where
  "isConnected s = (state s = ''connected'' \<and> socket s \<noteq> None \<and> live s)"

definition getState :: "LilaClient \<Rightarrow> string" where
  "getState s = state s"

definition setupSession :: "LilaClient \<Rightarrow> LilaClient" where
  "setupSession s =
     (if live s then socket_write (''@session '' @ sessionId s @ ''\<newline>'') s else s)"

text \<open>
  \<open>flushQueue\<close>: the loop takes the head of the queue and, when it is a non-empty string
  (\<open>if (code)\<close>), hands it to \<open>send\<close>. With no live socket \<open>send\<close> puts it back at the end
  of the queue, and the loop does not end: the result \<open>None\<close>.
\<close>

partial_function (option) flushQueue :: "LilaClient \<Rightarrow> LilaClient option" where
  "flushQueue s =
     (case messageQueue s of
        [] \<Rightarrow> Some s
      | code # rest \<Rightarrow>
          flushQueue (if code \<noteq> [] then send code (s\<lparr>messageQueue := rest\<rparr>)
                      else s\<lparr>messageQueue := rest\<rparr>))"

subsection \<open>The handlers registered in \<open>connect\<close>\<close>

text \<open>
  The listener passed to \<open>net.createConnection\<close>, run when socket \<open>h\<close> is established
  (the runtime clears \<open>connecting\<close> first).
\<close>

definition on_connect :: "nat \<Rightarrow> LilaClient \<Rightarrow> LilaClient option" where
  "on_connect h s =
     map_option (resolve h True)
       (flushQueue (setupSession (setState ''connected''
          (s\<lparr>sockets := (sockets s)(h := (sockets s h)\<lparr>connecting := False\<rparr>)\<rparr>))))"

text \<open>
  The \<open>error\<close> handler (its \<open>console.error\<close> line writes to the console only), the \<open>close\<close>
  handler, and the callback of the five-second timer. Each \<open>resolve\<close> is the one of the
  promise of the call that registered the handler; \<open>this.socket\<close> and \<open>this.state\<close> are read
  when the handler runs.
\<close>

definition on_error :: "nat \<Rightarrow> LilaClient \<Rightarrow> LilaClient" where
  "on_error h s = resolve h False (setState ''error'' s)"

definition on_close :: "LilaClient \<Rightarrow> LilaClient" where
  "on_close s = setState ''disconnected'' s"

definition on_timeout :: "nat \<Rightarrow> LilaClient \<Rightarrow> LilaClient" where
  "on_timeout h s =
     (if state s = ''connecting''
      then resolve h False (setState ''error'' (socket_destroy s))
      else s)"

subsection \<open>Calls and events\<close>

text \<open>
  What can happen to a client object: a call of a public method, or the runtime running one of
  the handlers of socket \<open>h\<close> (\<open>Established\<close>, \<open>Data\<close>, \<open>ErrorEvent\<close>, \<open>CloseEvent\<close>), the timer
  set by the \<open>connect()\<close> call that opened socket \<open>h\<close> (\<open>Timer\<close>), or the runtime destroying
  socket \<open>h\<close> because the remote end closed it or a transfer failed (\<open>Torn\<close>; the socket's
  \<open>error\<close> and \<open>close\<close> events are delivered later, on their own). The runtime never reports a
  destroyed socket as established, and reports each socket as established at most once; no
  other order of events is assumed.
\<close>

datatype action =
    Connect
  | Disconnect
  | Send string
  | Established nat
  | Data nat string
  | ErrorEvent nat
  | CloseEvent nat
  | Timer nat
  | Torn nat

fun enabled :: "action \<Rightarrow> LilaClient \<Rightarrow> bool" where
  "enabled Connect s = True"
| "enabled Disconnect s = True"
| "enabled (Send code) s = True"
| "enabled (Established h) s =
     (h < opened s \<and> \<not> destroyed (sockets s h) \<and> connecting (sockets s h))"
| "enabled (Data h d) s = (h < opened s)"
| "enabled (ErrorEvent h) s = (h < opened s)"
| "enabled (CloseEvent h) s = (h < opened s)"
| "enabled (Timer h) s = (h < opened s)"
| "enabled (Torn h) s = (h < opened s)"

text \<open>
  \<open>handleData\<close> reads and writes no field of the object (it only calls \<open>onResponse\<close>, see
  below), so a \<open>Data\<close> event leaves the state as it is.
\<close>

fun exec :: "action \<Rightarrow> LilaClient \<Rightarrow> LilaClient option" where
  "exec Connect s = Some (snd (connect s))"
| "exec Disconnect s = Some (disconnect s)"
| "exec (Send code) s = Some (send code s)"
| "exec (Established h) s = on_connect h s"
| "exec (Data h d) s = Some s"
| "exec (ErrorEvent h) s = Some (on_error h s)"
| "exec (CloseEvent h) s = Some (on_close s)"
| "exec (Timer h) s = Some (on_timeout h s)"
| "exec (Torn h) s = Some (s\<lparr>sockets := (sockets s)(h := (sockets s h)\<lparr>destroyed := True\<rparr>)\<rparr>)"

definition step :: "LilaClient \<Rightarrow> action \<Rightarrow> LilaClient \<Rightarrow> bool" where
  "step s a s' = (enabled a s \<and> exec a s = Some s')"

inductive reachable :: "LilaClient \<Rightarrow> bool" where
  r_new: "reachable (LilaClient_new observer p now)"
| r_step: "reachable s \<Longrightarrow> step s a s' \<Longrightarrow> reachable s'"

fun run :: "action list \<Rightarrow> LilaClient \<Rightarrow> LilaClient option" where
  "run [] s = Some s"
| "run (a # as) s =
     (if enabled a s then (case exec a s of None \<Rightarrow> None | Some s' \<Rightarrow> run as s') else None)"

text \<open>
  What holds of the fields and the store in every reachable state (proved below): the field
  points to an opened socket; every socket it does not point to is destroyed; while a live
  socket is held, the queue holds something only if the socket is still being established,
  and the state is \<open>connected\<close> only if it is established.
\<close>

definition invariant :: "LilaClient \<Rightarrow> bool" where
  "invariant s =
     ((\<forall>i. socket s = Some i \<longrightarrow> i < opened s) \<and>
      (\<forall>i. i < opened s \<and> socket s \<noteq> Some i \<longrightarrow> destroyed (sockets s i)) \<and>
      (\<forall>i. socket s = Some i \<and> \<not> destroyed (sockets s i) \<and> messageQueue s \<noteq> []
           \<longrightarrow> connecting (sockets s i)) \<and>
      (\<forall>i. socket s = Some i \<and> \<not> destroyed (sockets s i) \<and> state s = ''connected''
           \<longrightarrow> \<not> connecting (sockets s i)))"

section \<open>Inbound data: \<open>LilaClient.handleData\<close> and \<open>LilaSession.handleResponse\<close>\<close>

text \<open>
  The values \<open>JSON.parse\<close> returns. A string is the list of its code units (\<open>char\<close> holds
  those below 256), an object the list of its own properties, each key once.
\<close>

datatype json =
    JNull
  | JBool bool
  | JNum real
  | JStr string
  | JArr "json list"
  | JObj "(string \<times> json) list"

text \<open>
  \<open>response.k\<close> for the keys the handler reads (\<open>status\<close>, \<open>message\<close>, \<open>result\<close>) on a
  value other than \<open>null\<close>: \<open>None\<close> is \<open>undefined\<close>, the value of a property the object does
  not have and of any such property of a number, string, boolean or array. On \<open>null\<close> the
  access throws a \<open>TypeError\<close>: \<open>handleResponse\<close> below has that case first.
\<close>

datatype exn = TypeError

fun property :: "json \<Rightarrow> string \<Rightarrow> json option" where
  "property (JObj kvs) k = map_of kvs k"
| "property v k = None"

text \<open>JavaScript's truthiness, as \<open>if (v)\<close> and \<open>v || d\<close> test it.\<close>

fun truthy :: "json option \<Rightarrow> bool" where
  "truthy None = False"
| "truthy (Some JNull) = False"
| "truthy (Some (JBool b)) = b"
| "truthy (Some (JNum x)) = (x \<noteq> 0)"
| "truthy (Some (JStr t)) = (t \<noteq> [])"
| "truthy (Some (JArr xs)) = True"
| "truthy (Some (JObj kvs)) = True"

fun js_or :: "json option \<Rightarrow> json \<Rightarrow> json" where
  "js_or None d = d"
| "js_or (Some v) d = (if truthy (Some v) then v else d)"

text \<open>
  The four branches of \<open>handleResponse\<close>, named after the response variants they render:
  \<open>Success m\<close> is the line of the first branch with the text \<open>m\<close>, \<open>ErrorResult m\<close> the line
  and the error message of the second, \<open>ValueResult r\<close> the \<open>Result:\<close> line of the third and
  \<open>Unclassified v\<close> the \<open>Response:\<close> line of the last, which prints the whole value.
  \<open>response.message || d\<close> is \<open>js_or\<close>. Reading \<open>response.status\<close> of \<open>null\<close> throws.
\<close>

datatype rendered =
    Success json
  | ErrorResult json
  | ValueResult json
  | Unclassified json

definition handleResponse :: "json \<Rightarrow> exn + rendered" where
  "handleResponse response =
     (if response = JNull then Inl TypeError
      else if property response ''status'' = Some (JStr ''success'')
      then Inr (Success (js_or (property response ''message'') (JStr ''Success'')))
      else if property response ''status'' = Some (JStr ''error'')
      then Inr (ErrorResult (js_or (property response ''message'') (JStr ''Unknown error'')))
      else if truthy (property response ''result'')
      then (case property response ''result'' of
              None \<Rightarrow> Inr (Unclassified response)
            | Some r \<Rightarrow> Inr (ValueResult r))
      else Inr (Unclassified response))"

text \<open>\<open>String.prototype.trim\<close> on the code units below 256: the white space and line ends.\<close>

definition isWhiteSpace :: "char \<Rightarrow> bool" where
  "isWhiteSpace c = (c \<in> {CHR 0x09, CHR 0x0A, CHR 0x0B, CHR 0x0C, CHR 0x0D, CHR 0x20, CHR 0xA0})"

definition trim :: "string \<Rightarrow> string" where
  "trim t = rev (dropWhile isWhiteSpace (rev (dropWhile isWhiteSpace t)))"

text \<open>The object the \<open>catch\<close> block builds: \<open>{ status: "raw", data: data }\<close>.\<close>

definition raw :: "string \<Rightarrow> json" where
  "raw d = JObj [(''status'', JStr ''raw''), (''data'', JStr d)]"

text \<open>
  \<open>handleData\<close> with \<open>options.onResponse\<close> set to \<open>handleResponse\<close>, as \<open>LilaSession\<close> sets it.
  \<open>JSON.parse\<close> is the runtime's: the parameter \<open>parse\<close>, \<open>None\<close> where it throws. The result
  lists the calls of \<open>onResponse\<close> in order, each with what it did. The call on the parsed
  value stands inside the \<open>try\<close> block, so when it throws the \<open>catch\<close> block calls
  \<open>onResponse\<close> again, on the raw object.
\<close>

definition handleData :: "(string \<Rightarrow> json option) \<Rightarrow> string \<Rightarrow> (exn + rendered) list" where
  "handleData parse d =
     (if d = [] \<or> trim d = [] then []
      else case parse d of
             None \<Rightarrow> [handleResponse (raw d)]
           | Some response \<Rightarrow>
               (case handleResponse response of
                  Inl e \<Rightarrow> [Inl e, handleResponse (raw d)]
                | Inr x \<Rightarrow> [Inr x]))"

section \<open>Properties of LilaServer\<close>

lemma start_executor_process [simp]: "process (snd (start_executor h s)) = process s"
  by (cases h)
     (simp_all add: start_executor_def server_setState_def showErrorMessage_def
        createTerminal_def terminal_show_def)

lemma start_process [simp]: "process (snd (start h s)) = process s"
  by (simp add: start_def)

lemma stop_process [simp]: "process (stop s) = None"
  by (simp add: stop_def server_setState_def process_kill_def split: option.split)

lemma showTerminal_process [simp]: "process (showTerminal s) = process s"
  by (simp add: showTerminal_def terminal_show_def split: option.split)

lemma server_reachable_process: "server_reachable s \<Longrightarrow> process s = None"
  by (induction rule: server_reachable.induct) (simp_all add: LilaServer_new_def)

lemma server_reachable_terminal: "server_reachable s \<Longrightarrow> terminal s = Some t \<Longrightarrow> t < created s"
proof (induction arbitrary: t rule: server_reachable.induct)
  case (sr_new path)
  then show ?case by (simp add: LilaServer_new_def)
next
  case (sr_start s h)
  then show ?case
    by (cases h)
       (auto simp: start_def start_executor_def server_setState_def showErrorMessage_def
          createTerminal_def terminal_show_def less_Suc_eq split: if_splits option.splits)
next
  case (sr_stop s)
  then show ?case
    by (auto simp: stop_def server_setState_def process_kill_def terminal_dispose_def
          split: option.splits)
next
  case (sr_show s)
  then show ?case
    by (auto simp: showTerminal_def terminal_show_def split: option.splits)
qed

text \<open>The two outcomes of the body of the promise, for every state it is run in.\<close>

lemma start_executor_outcome:
  "(h = Launched \<longrightarrow>
      fst (start_executor h s) = True \<and>
      LilaServer.state (snd (start_executor h s)) = ''running'' \<and>
      assigned (snd (start_executor h s)) = assigned s @ [''starting'', ''running''] \<and>
      terminal (snd (start_executor h s)) = Some (created s)) \<and>
   (h \<noteq> Launched \<longrightarrow>
      fst (start_executor h s) = False \<and>
      LilaServer.state (snd (start_executor h s)) = ''error'' \<and>
      assigned (snd (start_executor h s)) = assigned s @ [''starting'', ''error''] \<and>
      errorMessages (snd (start_executor h s)) = Suc (errorMessages s))"
  by (cases h)
     (simp_all add: start_executor_def server_setState_def showErrorMessage_def
        createTerminal_def terminal_show_def)

text \<open>
  Claim C8 at the input where the code departs from it: \<open>start()\<close> called a second time, on a
  server that is \<open>running\<close> and holds the terminal of the first call. The guard of \<open>start\<close>
  reads \<open>process\<close>, which nothing assigns, while the handle \<open>start\<close> acquires is kept in
  \<open>terminal\<close>. So the second call is no no-op: it stores \<open>starting\<close> and \<open>running\<close> again,
  creates and holds a second terminal, and leaves the first one undisposed.
\<close>

theorem second_start_opens_terminal:
  "LilaServer.state (snd (start Launched (LilaServer_new ''lila_server''))) = ''running'' \<and>
   terminal (snd (start Launched (LilaServer_new ''lila_server''))) = Some 0 \<and>
   fst (start Launched (snd (start Launched (LilaServer_new ''lila_server'')))) = True \<and>
   start Launched (snd (start Launched (LilaServer_new ''lila_server'')))
     \<noteq> (True, snd (start Launched (LilaServer_new ''lila_server''))) \<and>
   terminal (snd (start Launched (snd (start Launched (LilaServer_new ''lila_server''))))) = Some 1 \<and>
   created (snd (start Launched (snd (start Launched (LilaServer_new ''lila_server''))))) = 2 \<and>
   terminals (snd (start Launched (snd (start Launched (LilaServer_new ''lila_server''))))) 0
     = \<lparr>shown = 1, disposed = False\<rparr> \<and>
   assigned (snd (start Launched (snd (start Launched (LilaServer_new ''lila_server'')))))
     = [''starting'', ''running'', ''starting'', ''running'']"
proof -
  let ?s1 = "snd (start Launched (LilaServer_new ''lila_server''))"
  have t1: "terminal ?s1 = Some 0"
    by (simp add: LilaServer_new_def start_def start_executor_def server_setState_def
          createTerminal_def terminal_show_def)
  have t2: "terminal (snd (start Launched ?s1)) = Some 1"
    by (simp add: LilaServer_new_def start_def start_executor_def server_setState_def
          createTerminal_def terminal_show_def)
  have ne: "start Launched ?s1 \<noteq> (True, ?s1)"
  proof
    assume "start Launched ?s1 = (True, ?s1)"
    then have "snd (start Launched ?s1) = ?s1" by simp
    then have "terminal (snd (start Launched ?s1)) = terminal ?s1" by simp
    then show False unfolding t1 t2 by simp
  qed
  have rest: "LilaServer.state ?s1 = ''running''"
    "fst (start Launched ?s1) = True"
    "created (snd (start Launched ?s1)) = 2"
    "terminals (snd (start Launched ?s1)) 0 = \<lparr>shown = 1, disposed = False\<rparr>"
    "assigned (snd (start Launched ?s1)) = [''starting'', ''running'', ''starting'', ''running'']"
    by (simp_all add: LilaServer_new_def start_def start_executor_def server_setState_def
          createTerminal_def terminal_show_def)
  from ne t1 t2 rest show ?thesis by blast
qed

text \<open>
  Claim C10. In every reachable state of the server the \<open>process\<close> field is null. So \<open>start\<close>
  never takes its early return (it always runs the body of the promise), \<open>stop\<close> never
  kills anything, and a \<open>start\<close> call the host serves, whatever the state it is made in
  (\<open>running\<close> included), creates a terminal that is not the one held, shows it and holds it.
\<close>

theorem process_always_null:
  assumes "server_reachable s"
  shows "process s = None \<and>
         start h s = start_executor h s \<and>
         stop s = server_setState ''stopped'' (terminal_dispose s) \<and>
         killed (stop s) = killed s \<and>
         terminal s \<noteq> Some (created s) \<and>
         terminal (snd (start Launched s)) = Some (created s) \<and>
         created (snd (start Launched s)) = Suc (created s) \<and>
         terminals (snd (start Launched s)) (created s) = \<lparr>shown = 1, disposed = False\<rparr>"
proof -
  have p: "process s = None" using assms by (rule server_reachable_process)
  have t: "terminal s \<noteq> Some (created s)"
    using server_reachable_terminal [OF assms] by fastforce
  show ?thesis
    using p t
    by (simp add: start_def stop_def process_kill_def start_executor_def server_setState_def
          createTerminal_def terminal_show_def terminal_dispose_def split: option.split)
qed

theorem process_always_null_witness:
  "server_reachable (snd (start Launched (LilaServer_new ''lila_server''))) \<and>
   LilaServer.state (snd (start Launched (LilaServer_new ''lila_server''))) = ''running'' \<and>
   terminal (snd (start Launched (LilaServer_new ''lila_server''))) = Some 0 \<and>
   process (snd (start Launched (LilaServer_new ''lila_server''))) = None \<and>
   terminal (snd (start Launched (snd (start Launched (LilaServer_new ''lila_server''))))) = Some 1 \<and>
   created (snd (start Launched (snd (start Launched (LilaServer_new ''lila_server''))))) = 2 \<and>
   killed (stop (snd (start Launched (LilaServer_new ''lila_server'')))) = []"
proof -
  have r: "server_reachable (snd (start Launched (LilaServer_new ''lila_server'')))"
    by (rule sr_start [OF sr_new])
  show ?thesis
    using r process_always_null [OF r, of Launched]
    by (simp add: LilaServer_new_def start_def start_executor_def server_setState_def
          createTerminal_def terminal_show_def stop_def process_kill_def terminal_dispose_def)
qed

section \<open>Properties of LilaClient\<close>

subsection \<open>The loop of \<open>flushQueue\<close> and the connect listener\<close>

lemmas client_defs = setState_def live_def socket_write_def socket_destroy_def resolve_def
  connect_def disconnect_def send_def setupSession_def on_error_def on_close_def on_timeout_def

text \<open>
  With a live socket held the loop of \<open>flushQueue\<close> ends: it writes every non-empty entry of
  the queue, in order, each followed by a line end, and leaves the queue empty.
\<close>

lemma flushQueue_live:
  assumes "socket s = Some i" and "\<not> destroyed (sockets s i)"
  shows "flushQueue s =
    Some (s\<lparr>messageQueue := [],
            sockets := (sockets s)(i := (sockets s i)\<lparr>written := written (sockets s i) @
               map (\<lambda>c. c @ ''\<newline>'') (filter (\<lambda>c. c \<noteq> []) (messageQueue s))\<rparr>)\<rparr>)"
  using assms
proof (induction "messageQueue s" arbitrary: s)
  case Nil
  from Nil(1) [symmetric] show ?case
    by (subst flushQueue.simps) simp
next
  case (Cons code rest)
  let ?s1 = "s\<lparr>messageQueue := rest\<rparr>"
  show ?case
  proof (cases "code = []")
    case True
    have "flushQueue s = flushQueue ?s1"
      using Cons(2) [symmetric] True by (subst flushQueue.simps) simp
    also have "\<dots> = Some (?s1\<lparr>messageQueue := [],
            sockets := (sockets ?s1)(i := (sockets ?s1 i)\<lparr>written := written (sockets ?s1 i) @
               map (\<lambda>c. c @ ''\<newline>'') (filter (\<lambda>c. c \<noteq> []) (messageQueue ?s1))\<rparr>)\<rparr>)"
      using Cons(3,4) by (intro Cons(1)) simp_all
    finally show ?thesis using Cons(2) [symmetric] True by simp
  next
    case False
    let ?s2 = "send code ?s1"
    have s2: "?s2 = ?s1\<lparr>sockets := (sockets s)(i := (sockets s i)\<lparr>written := written (sockets s i) @ [code @ ''\<newline>'']\<rparr>)\<rparr>"
      using Cons(3,4) by (simp add: send_def live_def socket_write_def)
    have "flushQueue s = flushQueue ?s2"
      using Cons(2) [symmetric] False by (subst flushQueue.simps) simp
    also have "\<dots> = Some (?s2\<lparr>messageQueue := [],
            sockets := (sockets ?s2)(i := (sockets ?s2 i)\<lparr>written := written (sockets ?s2 i) @
               map (\<lambda>c. c @ ''\<newline>'') (filter (\<lambda>c. c \<noteq> []) (messageQueue ?s2))\<rparr>)\<rparr>)"
      using Cons(3,4) by (intro Cons(1)) (simp_all add: s2)
    finally show ?thesis using Cons(2) [symmetric] False by (simp add: s2)
  qed
qed

lemma on_connect_live:
  assumes "socket s = Some h" and "\<not> destroyed (sockets s h)"
  shows "on_connect h s =
    Some (resolve h True
      (s\<lparr>state := ''connected'',
         notified := (if onStateChange s then notified s @ [''connected''] else notified s),
         messageQueue := [],
         sockets := (sockets s)(h := (sockets s h)\<lparr>connecting := False,
            written := written (sockets s h) @ (''@session '' @ sessionId s @ ''\<newline>'') #
              map (\<lambda>c. c @ ''\<newline>'') (filter (\<lambda>c. c \<noteq> []) (messageQueue s))\<rparr>)\<rparr>))"
proof -
  let ?s1 = "setupSession (setState ''connected''
       (s\<lparr>sockets := (sockets s)(h := (sockets s h)\<lparr>connecting := False\<rparr>)\<rparr>))"
  have a: "socket ?s1 = Some h" and b: "\<not> destroyed (sockets ?s1 h)"
    using assms by (simp_all add: setupSession_def setState_def live_def socket_write_def)
  show ?thesis
    unfolding on_connect_def flushQueue_live [OF a b]
    using assms
    by (simp add: setupSession_def setState_def live_def socket_write_def)
qed

subsection \<open>The invariant\<close>

lemma established_held:
  assumes "invariant s" and "enabled (Established h) s"
  shows "socket s = Some h \<and> \<not> destroyed (sockets s h) \<and> connecting (sockets s h)"
  using assms unfolding invariant_def by auto

lemma invariant_new: "invariant (LilaClient_new observer p now)"
  by (simp add: invariant_def LilaClient_new_def)

lemma invariant_connect: "invariant s \<Longrightarrow> invariant (snd (connect s))"
  unfolding invariant_def connect_def setState_def live_def
  by (auto simp: Let_def less_Suc_eq split: option.splits)

lemma invariant_disconnect: "invariant s \<Longrightarrow> invariant (disconnect s)"
  unfolding invariant_def disconnect_def setState_def socket_destroy_def
  by (auto split: option.splits)

lemma invariant_send: "invariant s \<Longrightarrow> invariant (send code s)"
  unfolding invariant_def send_def live_def socket_write_def
  by (auto split: option.splits)

lemma invariant_on_connect:
  assumes "invariant s" and "enabled (Established h) s" and "on_connect h s = Some s'"
  shows "invariant s'"
proof -
  have held: "socket s = Some h" "\<not> destroyed (sockets s h)"
    using established_held [OF assms(1,2)] by simp_all
  have "s' = resolve h True
      (s\<lparr>state := ''connected'',
         notified := (if onStateChange s then notified s @ [''connected''] else notified s),
         messageQueue := [],
         sockets := (sockets s)(h := (sockets s h)\<lparr>connecting := False,
            written := written (sockets s h) @ (''@session '' @ sessionId s @ ''\<newline>'') #
              map (\<lambda>c. c @ ''\<newline>'') (filter (\<lambda>c. c \<noteq> []) (messageQueue s))\<rparr>)\<rparr>)"
    using assms(3) unfolding on_connect_live [OF held] by simp
  then show ?thesis
    using assms(1) held unfolding invariant_def resolve_def
    by (auto split: option.splits)
qed

lemma invariant_on_error: "invariant s \<Longrightarrow> invariant (on_error h s)"
  unfolding invariant_def on_error_def setState_def resolve_def
  by (auto split: option.splits)

lemma invariant_on_close: "invariant s \<Longrightarrow> invariant (on_close s)"
  unfolding invariant_def on_close_def setState_def
  by (auto split: option.splits)

lemma invariant_on_timeout: "invariant s \<Longrightarrow> invariant (on_timeout h s)"
  unfolding invariant_def on_timeout_def setState_def resolve_def socket_destroy_def
  by (auto split: option.splits)

lemma invariant_torn:
  "invariant s \<Longrightarrow> invariant (s\<lparr>sockets := (sockets s)(h := (sockets s h)\<lparr>destroyed := True\<rparr>)\<rparr>)"
  unfolding invariant_def by auto

lemma invariant_step:
  assumes "invariant s" and "step s a s'"
  shows "invariant s'"
proof (cases a)
  case (Established h)
  then show ?thesis
    using assms invariant_on_connect [of s h s'] by (simp add: step_def)
qed (use assms in \<open>auto simp: step_def invariant_connect invariant_disconnect invariant_send
      invariant_on_error invariant_on_close invariant_on_timeout invariant_torn\<close>)

lemma reachable_invariant: "reachable s \<Longrightarrow> invariant s"
  by (induction rule: reachable.induct) (auto intro: invariant_new invariant_step)

lemma run_reachable: "reachable s \<Longrightarrow> run as s = Some s' \<Longrightarrow> reachable s'"
proof (induction as arbitrary: s)
  case Nil
  then show ?case by simp
next
  case (Cons a as)
  from Cons.prems(2) obtain s1 where e: "enabled a s" and x: "exec a s = Some s1"
    and r: "run as s1 = Some s'"
    by (auto split: if_splits option.splits)
  have "reachable s1" using Cons.prems(1) e x by (auto intro: r_step simp: step_def)
  then show ?case using r by (rule Cons.IH)
qed

subsection \<open>The claims on the connection\<close>

lemma toString_7: "toString 7 = ''7''"
  by code_simp

lemmas eval_defs = client_defs LilaClient_new_def validPort_def Let_def on_connect_live toString_7

text \<open>
  Claim C9. With an observer registered, \<open>disconnect()\<close> calls it with \<open>disconnected\<close> in
  every state, the state \<open>disconnected\<close> included: \<open>setState\<close> calls the observer on every
  assignment, whether or not the value changes.
\<close>

theorem setState_always_notifies:
  assumes "onStateChange s"
  shows "notified (disconnect s) = notified s @ [''disconnected''] \<and>
         state (disconnect s) = ''disconnected'' \<and>
         notified (setState v s) = notified s @ [v]"
  using assms by (simp add: disconnect_def setState_def socket_destroy_def split: option.split)

theorem setState_always_notifies_witness:
  "onStateChange (LilaClient_new True 9090 7) \<and>
   state (LilaClient_new True 9090 7) = ''disconnected'' \<and>
   notified (LilaClient_new True 9090 7) = [] \<and>
   notified (disconnect (LilaClient_new True 9090 7)) = [''disconnected''] \<and>
   notified (disconnect (disconnect (LilaClient_new True 9090 7))) = [''disconnected'', ''disconnected'']"
proof -
  have a: "onStateChange (LilaClient_new True 9090 7)" by (simp add: LilaClient_new_def)
  have b: "onStateChange (disconnect (LilaClient_new True 9090 7))"
    by (simp add: LilaClient_new_def disconnect_def setState_def)
  show ?thesis
    using setState_always_notifies [OF a] setState_always_notifies [OF b]
    by (simp add: LilaClient_new_def)
qed

text \<open>
  Claim C4 as first stated fails. After \<open>connect()\<close> the state is \<open>connecting\<close>, not
  \<open>connected\<close>, and the new socket is not destroyed: \<open>send\<close> writes to it and queues nothing.
\<close>

theorem send_while_connecting_counterexample:
  "state (snd (connect (LilaClient_new False 9090 7))) = ''connecting'' \<and>
   messageQueue (send ''x'' (snd (connect (LilaClient_new False 9090 7)))) = [] \<and>
   written (sockets (send ''x'' (snd (connect (LilaClient_new False 9090 7)))) 0) = [''x\<newline>'']"
  by (simp add: eval_defs)

text \<open>
  Claim C4, amended. What \<open>send(text)\<close> does follows the socket, not the state. With no live
  socket held (the field is null or its socket destroyed) it appends \<open>text\<close> to the queue and
  writes to no socket. With a live socket held, established or still connecting, it writes
  exactly \<open>text\<close> followed by a line end to that socket, as one unit, and leaves the queue
  as it is.
\<close>

theorem send_by_liveness:
  "(\<not> live s \<longrightarrow>
      send t s = s\<lparr>messageQueue := messageQueue s @ [t]\<rparr> \<and> sockets (send t s) = sockets s) \<and>
   (live s \<longrightarrow>
      messageQueue (send t s) = messageQueue s \<and>
      (\<exists>i. socket s = Some i \<and>
           sockets (send t s) =
             (sockets s)(i := (sockets s i)\<lparr>written := written (sockets s i) @ [t @ ''\<newline>'']\<rparr>)))"
  by (auto simp: send_def live_def socket_write_def split: option.splits)

theorem send_by_liveness_witness:
  "\<not> live (LilaClient_new False 9090 7) \<and>
   messageQueue (send ''x'' (LilaClient_new False 9090 7)) = [''x''] \<and>
   live (snd (connect (LilaClient_new False 9090 7))) \<and>
   messageQueue (send ''x'' (snd (connect (LilaClient_new False 9090 7)))) = [] \<and>
   sockets (send ''x'' (snd (connect (LilaClient_new False 9090 7)))) 0
     = \<lparr>destroyed = False, connecting = True, written = [''x\<newline>'']\<rparr>"
  using send_by_liveness [of "LilaClient_new False 9090 7" "''x''"]
    send_by_liveness [of "snd (connect (LilaClient_new False 9090 7))" "''x''"]
  by (simp add: eval_defs)

text \<open>
  Claim C7 as first stated fails. Once the runtime has destroyed the socket of a connected
  client and before the \<open>close\<close> handler has run, the state is still \<open>connected\<close> and \<open>send\<close>
  queues its argument. (\<open>isConnected\<close> reads the \<open>destroyed\<close> flag beside the state for this
  very interval.)
\<close>

theorem queue_while_connected_counterexample:
  "reachable (the (run [Connect, Established 0, Torn 0, Send ''x''] (LilaClient_new False 9090 7))) \<and>
   state (the (run [Connect, Established 0, Torn 0, Send ''x''] (LilaClient_new False 9090 7))) = ''connected'' \<and>
   messageQueue (the (run [Connect, Established 0, Torn 0, Send ''x''] (LilaClient_new False 9090 7))) = [''x'']"
proof -
  obtain s where s: "run [Connect, Established 0, Torn 0, Send ''x''] (LilaClient_new False 9090 7) = Some s"
    by (simp add: eval_defs)
  have "reachable s" using r_new s by (rule run_reachable)
  moreover have "state s = ''connected''" "messageQueue s = [''x'']"
    using s by (auto simp: eval_defs)
  ultimately show ?thesis using s by simp
qed

text \<open>
  Claim C7, amended. In every reachable state the queue is non-empty only when
  \<open>isConnected()\<close> is false: when the state is not \<open>connected\<close>, or no live socket is held.
\<close>

theorem queue_empty_while_connected:
  assumes "reachable s" and "isConnected s"
  shows "messageQueue s = []"
proof (rule ccontr)
  assume q: "messageQueue s \<noteq> []"
  from assms(2) obtain i where i: "socket s = Some i" "\<not> destroyed (sockets s i)"
    and c: "state s = ''connected''"
    by (auto simp: isConnected_def live_def split: option.splits)
  have inv: "invariant s" using assms(1) by (rule reachable_invariant)
  from inv i q have "connecting (sockets s i)" unfolding invariant_def by blast
  moreover from inv i c have "\<not> connecting (sockets s i)" unfolding invariant_def by blast
  ultimately show False by simp
qed

theorem queue_empty_while_connected_witness:
  "reachable (the (run [Send ''x'', Connect, Established 0] (LilaClient_new False 9090 7))) \<and>
   isConnected (the (run [Send ''x'', Connect, Established 0] (LilaClient_new False 9090 7))) \<and>
   messageQueue (the (run [Send ''x'', Connect, Established 0] (LilaClient_new False 9090 7))) = []"
proof -
  obtain s where s: "run [Send ''x'', Connect, Established 0] (LilaClient_new False 9090 7) = Some s"
    by (simp add: eval_defs)
  have r: "reachable s" using r_new s by (rule run_reachable)
  have c: "isConnected s" using s by (auto simp: eval_defs isConnected_def)
  show ?thesis using r c queue_empty_while_connected [OF r c] s by simp
qed

text \<open>
  Claim C5 as first stated fails. The timer acts only if the state is \<open>connecting\<close> when it
  fires. After \<open>connect(); disconnect()\<close> the socket never completes and never errors, the
  timer fires, and the state stays \<open>disconnected\<close> with the promise pending. After
  \<open>connect(); disconnect(); connect()\<close> the \<open>close\<close> event of the first socket sets the state to
  \<open>disconnected\<close>; the timer of the second call then does nothing: the second socket stays
  half-open and held, and its promise pending.
\<close>

theorem timeout_leaves_handle_counterexample:
  "state (the (run [Connect, Disconnect, Timer 0] (LilaClient_new False 9090 7))) = ''disconnected'' \<and>
   promises (the (run [Connect, Disconnect, Timer 0] (LilaClient_new False 9090 7))) 0 = None \<and>
   state (the (run [Connect, Disconnect, Connect, CloseEvent 0, Timer 1] (LilaClient_new False 9090 7)))
     = ''disconnected'' \<and>
   promises (the (run [Connect, Disconnect, Connect, CloseEvent 0, Timer 1] (LilaClient_new False 9090 7))) 1
     = None \<and>
   socket (the (run [Connect, Disconnect, Connect, CloseEvent 0, Timer 1] (LilaClient_new False 9090 7)))
     = Some 1 \<and>
   sockets (the (run [Connect, Disconnect, Connect, CloseEvent 0, Timer 1] (LilaClient_new False 9090 7))) 1
     = \<lparr>destroyed = False, connecting = True, written = []\<rparr>"
  by (simp add: eval_defs)

text \<open>
  Claim C5, amended. If the state is still \<open>connecting\<close> when the timer of a \<open>connect()\<close> call
  fires, the state becomes \<open>error\<close>, the promise of that call resolves \<open>false\<close> if it was
  pending, and the held socket is destroyed, after which no opened socket is live. If the
  state is anything else the timer changes nothing.
\<close>

theorem timeout_while_connecting:
  assumes "reachable s"
  shows "(state s = ''connecting'' \<longrightarrow>
            state (on_timeout h s) = ''error'' \<and>
            (promises s h = None \<longrightarrow> promises (on_timeout h s) h = Some False) \<and>
            \<not> live (on_timeout h s) \<and>
            opened (on_timeout h s) = opened s \<and>
            (\<forall>i. i < opened s \<longrightarrow> destroyed (sockets (on_timeout h s) i))) \<and>
         (state s \<noteq> ''connecting'' \<longrightarrow> on_timeout h s = s)"
proof -
  have inv: "invariant s" using assms by (rule reachable_invariant)
  then have others: "\<And>i. i < opened s \<Longrightarrow> socket s \<noteq> Some i \<Longrightarrow> destroyed (sockets s i)"
    unfolding invariant_def by blast
  show ?thesis
    using others
    by (auto simp: on_timeout_def setState_def resolve_def socket_destroy_def live_def
          split: option.splits)
qed

theorem timeout_while_connecting_witness:
  "reachable (snd (connect (LilaClient_new False 9090 7))) \<and>
   state (snd (connect (LilaClient_new False 9090 7))) = ''connecting'' \<and>
   state (on_timeout 0 (snd (connect (LilaClient_new False 9090 7)))) = ''error'' \<and>
   promises (on_timeout 0 (snd (connect (LilaClient_new False 9090 7)))) 0 = Some False \<and>
   destroyed (sockets (on_timeout 0 (snd (connect (LilaClient_new False 9090 7)))) 0) \<and>
   on_timeout 0 (LilaClient_new False 9090 7) = LilaClient_new False 9090 7"
proof -
  have r0: "reachable (LilaClient_new False 9090 7)" by (rule r_new)
  have r: "reachable (snd (connect (LilaClient_new False 9090 7)))"
    by (rule r_step [OF r_new, where a = Connect]) (simp add: step_def)
  show ?thesis
    using r timeout_while_connecting [OF r, of 0] timeout_while_connecting [OF r0, of 0]
    by (simp add: eval_defs)
qed

text \<open>
  With a port the runtime refuses, \<open>connect()\<close> called with no live socket held returns a
  rejected promise and leaves the object in state \<open>connecting\<close>, with the field as it was and
  with no socket opened; 70000 is such a port.
\<close>

lemma connect_refused_port:
  "\<not> live s \<Longrightarrow> \<not> validPort (port s) \<Longrightarrow>
     connect s = (Rejected, setState ''connecting'' s)"
  by (simp add: connect_def setState_def)

lemma connect_port_70000:
  "fst (connect (LilaClient_new False 70000 7)) = Rejected \<and>
   state (snd (connect (LilaClient_new False 70000 7))) = ''connecting'' \<and>
   socket (snd (connect (LilaClient_new False 70000 7))) = None \<and>
   opened (snd (connect (LilaClient_new False 70000 7))) = 0 \<and>
   reachable (snd (connect (LilaClient_new False 70000 7)))"
proof -
  have "reachable (snd (connect (LilaClient_new False 70000 7)))"
    by (rule r_step [OF r_new, where a = Connect]) (simp add: step_def)
  then show ?thesis by (simp add: eval_defs)
qed

text \<open>
  Claim C3 as first stated fails. A second \<open>connect()\<close> issued while the first is still
  connecting returns \<open>true\<close> at once, though the state is \<open>connecting\<close> and the first promise is
  pending; the attempt may still time out, which ends in state \<open>error\<close>.
\<close>

theorem second_connect_counterexample:
  "fst (connect (snd (connect (LilaClient_new False 9090 7)))) = Resolved True \<and>
   state (snd (connect (snd (connect (LilaClient_new False 9090 7))))) = ''connecting'' \<and>
   promises (snd (connect (snd (connect (LilaClient_new False 9090 7))))) 0 = None \<and>
   state (the (run [Connect, Connect, Timer 0] (LilaClient_new False 9090 7))) = ''error'' \<and>
   promises (the (run [Connect, Connect, Timer 0] (LilaClient_new False 9090 7))) 0 = Some False"
  by (simp add: eval_defs)

text \<open>
  Claim C3, amended. \<open>connect()\<close> called with a live socket held, connecting or connected,
  returns \<open>true\<close> at once and changes nothing: no second socket, no handshake. Called with
  none, and with a port the runtime accepts, it stores \<open>connecting\<close>, opens a socket and
  returns a pending promise. A pending promise is resolved \<open>true\<close> only by the connect
  listener of its socket, which ends in state \<open>connected\<close>, and \<open>false\<close> only by the error
  handler of its socket or by its timer, which end in state \<open>error\<close>; each of them resolves
  it (the timer when the state is still \<open>connecting\<close>), and a resolved promise keeps its
  value.
\<close>

theorem connect_contract:
  assumes "reachable s"
  shows "(live s \<longrightarrow> connect s = (Resolved True, s)) \<and>
         (\<not> live s \<and> validPort (port s) \<longrightarrow>
            fst (connect s) = Pending (opened s) \<and>
            state (snd (connect s)) = ''connecting'' \<and>
            socket (snd (connect s)) = Some (opened s) \<and>
            sockets (snd (connect s)) (opened s)
              = \<lparr>destroyed = False, connecting = True, written = []\<rparr> \<and>
            promises (snd (connect s)) (opened s) = None \<and>
            opened (snd (connect s)) = Suc (opened s)) \<and>
         (step s a s' \<and> promises s h = None \<and> promises s' h = Some b \<longrightarrow>
            (if b then a = Established h \<and> state s' = ''connected''
             else (a = ErrorEvent h \<or> a = Timer h) \<and> state s' = ''error'')) \<and>
         (step s (Established h) s' \<and> promises s h = None \<longrightarrow>
            promises s' h = Some True \<and> state s' = ''connected'') \<and>
         (step s (ErrorEvent h) s' \<and> promises s h = None \<longrightarrow>
            promises s' h = Some False \<and> state s' = ''error'') \<and>
         (step s (Timer h) s' \<and> state s = ''connecting'' \<and> promises s h = None \<longrightarrow>
            promises s' h = Some False \<and> state s' = ''error'') \<and>
         (step s a s' \<and> h < opened s \<and> promises s h = Some b \<longrightarrow> promises s' h = Some b)"
proof -
  have inv: "invariant s" using assms by (rule reachable_invariant)
  have est: "\<And>k t. step s (Established k) t \<Longrightarrow>
      t = resolve k True
      (s\<lparr>state := ''connected'',
         notified := (if onStateChange s then notified s @ [''connected''] else notified s),
         messageQueue := [],
         sockets := (sockets s)(k := (sockets s k)\<lparr>connecting := False,
            written := written (sockets s k) @ (''@session '' @ sessionId s @ ''\<newline>'') #
              map (\<lambda>c. c @ ''\<newline>'') (filter (\<lambda>c. c \<noteq> []) (messageQueue s))\<rparr>)\<rparr>)"
  proof -
    fix k t assume st: "step s (Established k) t"
    then have en: "enabled (Established k) s" and ex: "on_connect k s = Some t"
      by (simp_all add: step_def)
    have held: "socket s = Some k" "\<not> destroyed (sockets s k)"
      using established_held [OF inv en] by simp_all
    show "t = resolve k True
      (s\<lparr>state := ''connected'',
         notified := (if onStateChange s then notified s @ [''connected''] else notified s),
         messageQueue := [],
         sockets := (sockets s)(k := (sockets s k)\<lparr>connecting := False,
            written := written (sockets s k) @ (''@session '' @ sessionId s @ ''\<newline>'') #
              map (\<lambda>c. c @ ''\<newline>'') (filter (\<lambda>c. c \<noteq> []) (messageQueue s))\<rparr>)\<rparr>)"
      using ex unfolding on_connect_live [OF held] by simp
  qed
  have c1: "live s \<longrightarrow> connect s = (Resolved True, s)"
    by (simp add: connect_def)
  have c2: "\<not> live s \<and> validPort (port s) \<longrightarrow>
            fst (connect s) = Pending (opened s) \<and>
            state (snd (connect s)) = ''connecting'' \<and>
            socket (snd (connect s)) = Some (opened s) \<and>
            sockets (snd (connect s)) (opened s)
              = \<lparr>destroyed = False, connecting = True, written = []\<rparr> \<and>
            promises (snd (connect s)) (opened s) = None \<and>
            opened (snd (connect s)) = Suc (opened s)"
    by (simp add: connect_def setState_def Let_def)
  have c3: "step s a s' \<and> promises s h = None \<and> promises s' h = Some b \<longrightarrow>
            (if b then a = Established h \<and> state s' = ''connected''
             else (a = ErrorEvent h \<or> a = Timer h) \<and> state s' = ''error'')"
  proof (cases a)
    case (Established k)
    show ?thesis
      using est [of k s'] unfolding Established
      by (auto simp: resolve_def split: option.splits if_splits)
  qed (auto simp: step_def client_defs Let_def split: option.splits if_splits)
  have c4: "step s (Established h) s' \<and> promises s h = None \<longrightarrow>
            promises s' h = Some True \<and> state s' = ''connected''"
    using est [of h s'] by (auto simp: resolve_def)
  have c5: "step s (ErrorEvent h) s' \<and> promises s h = None \<longrightarrow>
            promises s' h = Some False \<and> state s' = ''error''"
    by (auto simp: step_def client_defs)
  have c6: "step s (Timer h) s' \<and> state s = ''connecting'' \<and> promises s h = None \<longrightarrow>
            promises s' h = Some False \<and> state s' = ''error''"
    by (auto simp: step_def client_defs split: option.splits)
  have c7: "step s a s' \<and> h < opened s \<and> promises s h = Some b \<longrightarrow> promises s' h = Some b"
  proof (cases a)
    case (Established k)
    show ?thesis
      using est [of k s'] unfolding Established
      by (auto simp: resolve_def split: option.splits if_splits)
  qed (auto simp: step_def client_defs Let_def split: option.splits if_splits)
  from c1 c2 c3 c4 c5 c6 c7 show ?thesis by blast
qed

theorem connect_contract_witness:
  "reachable (snd (connect (LilaClient_new False 9090 7))) \<and>
   live (snd (connect (LilaClient_new False 9090 7))) \<and>
   connect (snd (connect (LilaClient_new False 9090 7)))
     = (Resolved True, snd (connect (LilaClient_new False 9090 7))) \<and>
   \<not> live (LilaClient_new False 9090 7) \<and>
   validPort (port (LilaClient_new False 9090 7)) \<and>
   fst (connect (LilaClient_new False 9090 7)) = Pending 0 \<and>
   state (snd (connect (LilaClient_new False 9090 7))) = ''connecting'' \<and>
   step (snd (connect (LilaClient_new False 9090 7))) (Established 0)
     (the (on_connect 0 (snd (connect (LilaClient_new False 9090 7))))) \<and>
   promises (snd (connect (LilaClient_new False 9090 7))) 0 = None \<and>
   promises (the (on_connect 0 (snd (connect (LilaClient_new False 9090 7))))) 0 = Some True \<and>
   state (the (on_connect 0 (snd (connect (LilaClient_new False 9090 7))))) = ''connected'' \<and>
   promises (on_error 0 (snd (connect (LilaClient_new False 9090 7)))) 0 = Some False \<and>
   state (on_error 0 (snd (connect (LilaClient_new False 9090 7)))) = ''error'' \<and>
   promises (on_timeout 0 (snd (connect (LilaClient_new False 9090 7)))) 0 = Some False \<and>
   state (on_timeout 0 (snd (connect (LilaClient_new False 9090 7)))) = ''error'' \<and>
   reachable (on_timeout 0 (snd (connect (LilaClient_new False 9090 7)))) \<and>
   promises (on_error 0 (on_timeout 0 (snd (connect (LilaClient_new False 9090 7))))) 0 = Some False"
proof -
  let ?s0 = "LilaClient_new False 9090 7"
  let ?s1 = "snd (connect ?s0)"
  let ?t = "on_timeout 0 ?s1"
  have r0: "reachable ?s0" by (rule r_new)
  have r: "reachable ?s1"
    by (rule r_step [OF r_new, where a = Connect]) (simp add: step_def)
  have st: "step ?s1 (Established 0) (the (on_connect 0 ?s1))"
    by (simp add: step_def eval_defs)
  have se: "step ?s1 (ErrorEvent 0) (on_error 0 ?s1)"
    by (simp add: step_def eval_defs)
  have sm: "step ?s1 (Timer 0) ?t"
    by (simp add: step_def eval_defs)
  have rt: "reachable ?t" using r sm by (rule r_step)
  have sk: "step ?t (ErrorEvent 0) (on_error 0 ?t)"
    by (simp add: step_def eval_defs)
  have p: "promises ?s1 0 = None" "state ?s1 = ''connecting''" "opened ?t = 1"
    by (simp_all add: eval_defs)
  have l: "live ?s1" "\<not> live ?s0"
    by (simp_all add: eval_defs)
  have pt: "promises ?t 0 = Some False"
    using connect_contract [OF r, of "Timer 0" ?t 0 False] sm p by simp
  have keep: "promises (on_error 0 ?t) 0 = Some False"
    using connect_contract [OF rt, of "ErrorEvent 0" "on_error 0 ?t" 0 False] sk pt p by simp
  show ?thesis
    using r rt l st p pt keep
      connect_contract [OF r0, of Connect ?s0 0 True]
      connect_contract [OF r, of "Established 0" "the (on_connect 0 ?s1)" 0 True]
      connect_contract [OF r, of "ErrorEvent 0" "on_error 0 ?s1" 0 False] se
      connect_contract [OF r, of "Timer 0" ?t 0 False] sm
    by (simp add: LilaClient_new_def validPort_def)
qed

text \<open>
  Claim C6 as first stated fails. A payload sent while the socket is connecting is written to
  it before the connect listener writes the handshake line.
\<close>

theorem handshake_not_first_counterexample:
  "state (the (run [Connect, Send ''x'', Established 0] (LilaClient_new False 9090 7))) = ''connected'' \<and>
   written (sockets (the (run [Connect, Send ''x'', Established 0] (LilaClient_new False 9090 7))) 0)
     = [''x\<newline>'', ''@session 7\<newline>'']"
  by (simp add: eval_defs)

lemma step_sessionId:
  assumes "reachable s" and "step s a s'"
  shows "sessionId s' = sessionId s"
proof (cases a)
  case (Established h)
  have inv: "invariant s" using assms(1) by (rule reachable_invariant)
  from assms(2) have en: "enabled (Established h) s" and ex: "on_connect h s = Some s'"
    by (simp_all add: step_def Established)
  have held: "socket s = Some h" "\<not> destroyed (sockets s h)"
    using established_held [OF inv en] by simp_all
  show ?thesis
    using ex unfolding on_connect_live [OF held]
    by (auto simp: resolve_def split: option.splits)
qed (use assms(2) in \<open>auto simp: step_def client_defs Let_def split: option.splits if_splits\<close>)

lemma run_sessionId:
  "reachable s \<Longrightarrow> run as s = Some s' \<Longrightarrow> sessionId s' = sessionId s"
proof (induction as arbitrary: s)
  case Nil
  then show ?case by simp
next
  case (Cons a as)
  from Cons.prems(2) obtain s1 where st: "step s a s1" and r: "run as s1 = Some s'"
    by (auto simp: step_def split: if_splits option.splits)
  have "reachable s1" using Cons.prems(1) st by (rule r_step)
  then have "sessionId s' = sessionId s1" using r by (rule Cons.IH)
  then show ?case using step_sessionId [OF Cons.prems(1) st] by simp
qed

text \<open>
  Claim C6, amended. After any history of an object built at clock value \<open>now\<close>, the step into
  \<open>connected\<close> appends to the writes of the established socket the line
  \<open>@session <id>\<close> with \<open>id\<close> the digits of \<open>now\<close>, before the queued payloads; the line is the
  first write of that socket when nothing was sent while it was connecting. The identifier
  is the one made by the constructor, on every connect of the object.
\<close>

theorem handshake_on_connect:
  assumes "run as (LilaClient_new observer p now) = Some s"
    and "step s (Established h) s'"
  shows "state s' = ''connected'' \<and>
         sessionId s = toString now \<and>
         sessionId s' = toString now \<and>
         written (sockets s' h) =
           written (sockets s h) @ (''@session '' @ toString now @ ''\<newline>'') #
             map (\<lambda>c. c @ ''\<newline>'') (filter (\<lambda>c. c \<noteq> []) (messageQueue s)) \<and>
         (written (sockets s h) = [] \<longrightarrow>
            hd (written (sockets s' h)) = ''@session '' @ toString now @ ''\<newline>'')"
proof -
  have r: "reachable s" using r_new assms(1) by (rule run_reachable)
  have inv: "invariant s" using r by (rule reachable_invariant)
  have sid: "sessionId s = toString now"
    using run_sessionId [OF r_new assms(1)] by (simp add: LilaClient_new_def)
  from assms(2) have en: "enabled (Established h) s" and ex: "on_connect h s = Some s'"
    by (simp_all add: step_def)
  have held: "socket s = Some h" "\<not> destroyed (sockets s h)"
    using established_held [OF inv en] by simp_all
  show ?thesis
    using ex sid unfolding on_connect_live [OF held]
    by (auto simp: resolve_def split: option.splits)
qed

theorem handshake_on_connect_witness:
  "run [Connect, Established 0, Disconnect, Connect] (LilaClient_new False 9090 7)
     = Some (the (run [Connect, Established 0, Disconnect, Connect] (LilaClient_new False 9090 7))) \<and>
   step (the (run [Connect, Established 0, Disconnect, Connect] (LilaClient_new False 9090 7)))
     (Established 1)
     (the (run [Connect, Established 0, Disconnect, Connect, Established 1] (LilaClient_new False 9090 7))) \<and>
   written (sockets
     (the (run [Connect, Established 0, Disconnect, Connect, Established 1] (LilaClient_new False 9090 7))) 0)
     = [''@session 7\<newline>''] \<and>
   written (sockets
     (the (run [Connect, Established 0, Disconnect, Connect, Established 1] (LilaClient_new False 9090 7))) 1)
     = [''@session 7\<newline>'']"
proof -
  let ?s = "the (run [Connect, Established 0, Disconnect, Connect] (LilaClient_new False 9090 7))"
  let ?s' = "the (run [Connect, Established 0, Disconnect, Connect, Established 1] (LilaClient_new False 9090 7))"
  have a: "run [Connect, Established 0, Disconnect, Connect] (LilaClient_new False 9090 7) = Some ?s"
    by (simp add: eval_defs)
  have b: "step ?s (Established 1) ?s'"
    by (simp add: step_def eval_defs)
  have c: "written (sockets ?s 1) = []" "written (sockets ?s' 0) = [''@session 7\<newline>'']"
    by (simp_all add: eval_defs)
  show ?thesis
    using a b c handshake_on_connect [OF a b]
    by (simp add: eval_defs)
qed

text \<open>
  Claim C1 as first stated fails. A payload passed to \<open>send()\<close> after \<open>connect()\<close>, while the
  socket is connecting, is written before the handshake line and before the payload queued
  earlier.
\<close>

theorem later_send_overtakes_counterexample:
  "state (the (run [Send ''a'', Connect, Send ''b'', Established 0] (LilaClient_new False 9090 7)))
     = ''connected'' \<and>
   written (sockets (the (run [Send ''a'', Connect, Send ''b'', Established 0] (LilaClient_new False 9090 7))) 0)
     = [''b\<newline>'', ''@session 7\<newline>'', ''a\<newline>'']"
  by (simp add: eval_defs)

lemma live_messageQueue [simp]: "live (s\<lparr>messageQueue := q\<rparr>) = live s"
  by (simp add: live_def split: option.split)

lemma run_sends:
  "\<not> live s \<Longrightarrow> run (map Send xs @ tr) s = run tr (s\<lparr>messageQueue := messageQueue s @ xs\<rparr>)"
proof (induction xs arbitrary: s)
  case Nil
  then show ?case by simp
next
  case (Cons x xs)
  have l: "\<not> live (send x s)" using Cons.prems by (simp add: send_def)
  have "run (map Send (x # xs) @ tr) s = run (map Send xs @ tr) (send x s)" by simp
  also have "\<dots> = run tr ((send x s)\<lparr>messageQueue := messageQueue (send x s) @ xs\<rparr>)"
    using l by (rule Cons.IH)
  finally show ?case using Cons.prems by (simp add: send_def)
qed

text \<open>
  Claim C1, amended. Let no live socket be held, and let non-empty payloads be passed to
  \<open>send()\<close>. When \<open>connect()\<close> follows and succeeds, that is, it opens a socket (the runtime
  accepts the port) and the socket is established, with no \<open>send()\<close> in between, the
  listener ends, the writes of that socket are the handshake line and then every queued
  payload followed by a line end, in the order queued, the queue is empty, and a later
  \<open>send()\<close> writes after them.
\<close>

theorem queued_payloads_flushed:
  assumes "\<not> live s" and "\<forall>x \<in> set (messageQueue s @ xs). x \<noteq> []"
    and "validPort (port s)"
  shows "\<exists>s'. run (map Send xs @ [Connect, Established (opened s)]) s = Some s' \<and>
           state s' = ''connected'' \<and>
           messageQueue s' = [] \<and>
           written (sockets s' (opened s)) =
             (''@session '' @ sessionId s @ ''\<newline>'') #
               map (\<lambda>x. x @ ''\<newline>'') (messageQueue s @ xs) \<and>
           (\<forall>y. written (sockets (send y s') (opened s)) =
                  written (sockets s' (opened s)) @ [y @ ''\<newline>''])"
proof -
  let ?q = "s\<lparr>messageQueue := messageQueue s @ xs\<rparr>"
  let ?c = "snd (connect ?q)"
  have nl: "\<not> live ?q" using assms(1) by simp
  have held: "socket ?c = Some (opened s)" "\<not> destroyed (sockets ?c (opened s))"
    using nl assms(3) by (simp_all add: connect_def setState_def Let_def)
  have en: "enabled (Established (opened s)) ?c"
    using nl assms(3) by (simp add: connect_def setState_def Let_def)
  have f: "filter (\<lambda>c. c \<noteq> []) (messageQueue s @ xs) = messageQueue s @ xs"
    using assms(2) by (simp add: filter_id_conv)
  have "run (map Send xs @ [Connect, Established (opened s)]) s
          = run [Connect, Established (opened s)] ?q"
    using assms(1) by (rule run_sends)
  also have "\<dots> = on_connect (opened s) ?c"
    using en by (simp split: option.split)
  finally have r: "run (map Send xs @ [Connect, Established (opened s)]) s
      = on_connect (opened s) ?c" .
  show ?thesis
    unfolding r on_connect_live [OF held]
    using nl f assms(3)
    by (auto simp: connect_def setState_def Let_def resolve_def send_def live_def
          socket_write_def split: option.splits)
qed

theorem queued_payloads_flushed_witness:
  "\<not> live (LilaClient_new False 9090 7) \<and>
   validPort (port (LilaClient_new False 9090 7)) \<and>
   state (the (run [Send ''a'', Send ''b'', Connect, Established 0] (LilaClient_new False 9090 7)))
     = ''connected'' \<and>
   messageQueue (the (run [Send ''a'', Send ''b'', Connect, Established 0] (LilaClient_new False 9090 7)))
     = [] \<and>
   written (sockets (the (run [Send ''a'', Send ''b'', Connect, Established 0] (LilaClient_new False 9090 7))) 0)
     = [''@session 7\<newline>'', ''a\<newline>'', ''b\<newline>'']"
proof -
  have l: "\<not> live (LilaClient_new False 9090 7)" by (simp add: eval_defs)
  have n: "\<forall>x \<in> set (messageQueue (LilaClient_new False 9090 7) @ [''a'', ''b'']). x \<noteq> []"
    by (simp add: LilaClient_new_def)
  have o: "opened (LilaClient_new False 9090 7) = 0" "sessionId (LilaClient_new False 9090 7) = ''7''"
    "messageQueue (LilaClient_new False 9090 7) = []"
    by (simp_all add: LilaClient_new_def toString_7)
  have v: "validPort (port (LilaClient_new False 9090 7))"
    by (simp add: LilaClient_new_def validPort_def)
  from queued_payloads_flushed [OF l n v] obtain s' where
    "run (map Send [''a'', ''b''] @ [Connect, Established (opened (LilaClient_new False 9090 7))])
       (LilaClient_new False 9090 7) = Some s'"
    "state s' = ''connected''" "messageQueue s' = []"
    "written (sockets s' (opened (LilaClient_new False 9090 7))) =
       (''@session '' @ sessionId (LilaClient_new False 9090 7) @ ''\<newline>'') #
         map (\<lambda>x. x @ ''\<newline>'') (messageQueue (LilaClient_new False 9090 7) @ [''a'', ''b''])"
    by blast
  then have "run [Send ''a'', Send ''b'', Connect, Established 0] (LilaClient_new False 9090 7) = Some s'"
    "state s' = ''connected''" "messageQueue s' = []"
    "written (sockets s' 0) = [''@session 7\<newline>'', ''a\<newline>'', ''b\<newline>'']"
    unfolding o by simp_all
  then show ?thesis using l v by simp
qed

text \<open>
  An empty string in the queue is not written: \<open>if (code)\<close> in \<open>flushQueue\<close> skips it, while
  \<open>send\<close> with a live socket writes the bare line end.
\<close>

lemma flushQueue_skips_empty:
  "written (sockets (the (run [Send '''', Connect, Established 0] (LilaClient_new False 9090 7))) 0)
     = [''@session 7\<newline>''] \<and>
   written (sockets (the (run [Connect, Established 0, Send ''''] (LilaClient_new False 9090 7))) 0)
     = [''@session 7\<newline>'', ''\<newline>'']"
  by (simp add: eval_defs)

subsection \<open>Inbound data\<close>

text \<open>
  Claim C2 at the inputs where the code departs from it. \<open>handleResponse\<close> tests the value of
  \<open>result\<close> for truthiness, not the presence of the field: the chunk \<open>{"result":0}\<close> takes the
  last branch, not the \<open>Result:\<close> branch that \<open>{"result":42}\<close> takes. On the chunk \<open>null\<close>
  the handler throws inside the \<open>try\<close> block and the chunk is delivered a second time, as raw
  text.
\<close>

theorem falsy_result_unclassified:
  "handleResponse (JObj [(''result'', JNum 0)]) = Inr (Unclassified (JObj [(''result'', JNum 0)])) \<and>
   handleResponse (JObj [(''result'', JBool False)])
     = Inr (Unclassified (JObj [(''result'', JBool False)])) \<and>
   handleResponse (JObj [(''result'', JNum 42)]) = Inr (ValueResult (JNum 42)) \<and>
   handleData (\<lambda>d. if d = ''{\"result\":0}'' then Some (JObj [(''result'', JNum 0)]) else None)
       ''{\"result\":0}''
     = [Inr (Unclassified (JObj [(''result'', JNum 0)]))] \<and>
   handleData (\<lambda>d. if d = ''null'' then Some JNull else None) ''null''
     = [Inl TypeError, Inr (Unclassified (raw ''null''))]"
  by (simp add: handleResponse_def handleData_def trim_def isWhiteSpace_def raw_def)

text \<open>The rest of the classification, as the code has it.\<close>

lemma handleData_blank: "d = [] \<or> trim d = [] \<Longrightarrow> handleData parse d = []"
  by (simp add: handleData_def)

lemma trim_Nil [simp]: "trim [] = []"
  by (simp add: trim_def)

lemma trim_whitespace_only: "\<forall>c \<in> set d. isWhiteSpace c \<Longrightarrow> trim d = []"
  by (auto simp: trim_def dest: set_dropWhileD)

lemma truthy_Some: "truthy v \<Longrightarrow> \<exists>r. v = Some r"
  by (cases v) simp_all

lemma handleData_raw:
  "trim d \<noteq> [] \<Longrightarrow> parse d = None \<Longrightarrow> handleData parse d = [Inr (Unclassified (raw d))]"
  by (auto simp: handleData_def handleResponse_def raw_def)

lemma handleData_status:
  assumes "trim d \<noteq> []" and "parse d = Some response"
  shows "property response ''status'' = Some (JStr ''success'') \<Longrightarrow>
           \<exists>m. handleData parse d = [Inr (Success m)]"
    and "property response ''status'' = Some (JStr ''error'') \<Longrightarrow>
           \<exists>m. handleData parse d = [Inr (ErrorResult m)]"
    and "property response ''status'' \<noteq> Some (JStr ''success'') \<Longrightarrow>
         property response ''status'' \<noteq> Some (JStr ''error'') \<Longrightarrow>
         truthy (property response ''result'') \<Longrightarrow>
           \<exists>r. property response ''result'' = Some r \<and> handleData parse d = [Inr (ValueResult r)]"
    and "property response ''status'' \<noteq> Some (JStr ''success'') \<Longrightarrow>
         property response ''status'' \<noteq> Some (JStr ''error'') \<Longrightarrow>
         \<not> truthy (property response ''result'') \<Longrightarrow> response \<noteq> JNull \<Longrightarrow>
           handleData parse d = [Inr (Unclassified response)]"
    and "response = JNull \<Longrightarrow>
           handleData parse d = [Inl TypeError, Inr (Unclassified (raw d))]"
  using assms
  by (auto simp: handleData_def handleResponse_def raw_def split: option.splits
        dest: truthy_Some)

end
